theory Spec2Isabelle
  imports
    Complex_Main
    "HOL-Library.Multiset"
    "HOL-Library.Option_ord"
    "HOL-Library.Product_Lexorder"
    "HOL-Library.List_Lexorder"
    "HOL-Library.Char_ord"
begin

section \<open>Data frames of the location tracker\<close>

text \<open>
  The program \<^verbatim>\<open>location_tracker.py\<close> keeps its data in pandas data frames with the
  columns Tag, X, Y, Timestamp and Floor. A frame is modelled as the list of its rows, in
  frame order. A cell of the X, Y or Timestamp column is missing (\<open>NaN\<close>, pandas' NaN and
  NaT), holds the text read from the CSV file (\<open>Raw\<close>), or holds a value of the column's
  type (\<open>Val\<close>: a number of type \<open>'n\<close>, a point in time of type \<open>'t\<close>). A Tag or a Floor is a
  string, or missing (\<open>None\<close>).
\<close>

datatype 'a cell = NaN | Raw string | Val 'a

record ('n, 't) row =
  Tag :: "string option"
  X :: "'n cell"
  Y :: "'n cell"
  Timestamp :: "'t cell"
  Floor :: "string option"

text \<open>The exceptions the pipeline can raise; the handler of line 168 catches all of them.\<close>

datatype error = KeyError | ReadError | IndexError | ValueError | TypeError

section \<open>pandas operations used by the program\<close>

text \<open>
  Three operations of the library are parameters of the model, under the names the
  program calls them by, because what they return is decided by code outside the
  program.

  \<^verbatim>\<open>pd.to_numeric(col, errors="coerce")\<close> and \<^verbatim>\<open>pd.to_datetime(col, errors="coerce")\<close>
  convert a whole column at once: the result for one cell can depend on the other cells
  of the column (the number type is chosen per column, the date format is inferred from
  the first value), a cell that does not convert becomes missing, and the conversion can
  raise. A conversion takes the column and returns the converted column or the
  exception.

  \<^verbatim>\<open>df.sort_values("Timestamp")\<close> returns the rows in ascending order of the Timestamp
  column. Its default algorithm is not stable, so the order among rows with equal
  timestamps is the library's choice. A sort takes the frame and returns the sorted
  frame.
\<close>

type_synonym 'a conversion = "'a cell list \<Rightarrow> error + 'a cell list"

type_synonym ('n, 't) sorter = "('n, 't) row list \<Rightarrow> ('n, 't) row list"

fun isna :: "'a cell \<Rightarrow> bool" where
  "isna NaN = True"
| "isna (Raw s) = False"
| "isna (Val v) = False"

text \<open>
  \<^verbatim>\<open>df.dropna(subset=cols)\<close> keeps, in order, the rows in which no column of \<open>cols\<close> is
  missing. A column of the subset is given by its test for a missing cell.
\<close>

definition dropna :: "('r \<Rightarrow> bool) list \<Rightarrow> 'r list \<Rightarrow> 'r list" where
  "dropna cols df = filter (\<lambda>r. \<not> list_ex (\<lambda>missing. missing r) cols) df"

text \<open>
  \<^verbatim>\<open>df["X"] = col\<close> and its like replace one column of the frame, row by row, by a
  column of the same length.
\<close>

definition assign_X :: "'n cell list \<Rightarrow> ('n, 't) row list \<Rightarrow> ('n, 't) row list" where
  "assign_X col df = map (\<lambda>(r, c). r\<lparr>X := c\<rparr>) (zip df col)"

definition assign_Y :: "'n cell list \<Rightarrow> ('n, 't) row list \<Rightarrow> ('n, 't) row list" where
  "assign_Y col df = map (\<lambda>(r, c). r\<lparr>Y := c\<rparr>) (zip df col)"

definition assign_Timestamp :: "'t cell list \<Rightarrow> ('n, 't) row list \<Rightarrow> ('n, 't) row list" where
  "assign_Timestamp col df = map (\<lambda>(r, c). r\<lparr>Timestamp := c\<rparr>) (zip df col)"

text \<open>
  The order of the Timestamp column: points in time in their order, rows without a point
  in time after all others.
\<close>

fun ts_key :: "'t cell \<Rightarrow> bool \<times> 't option" where
  "ts_key (Val t) = (False, Some t)"
| "ts_key NaN = (True, None)"
| "ts_key (Raw s) = (True, None)"

text \<open>\<^verbatim>\<open>df.iloc[-1]\<close>: the last row; IndexError on a frame without rows.\<close>

definition iloc_last :: "'r list \<Rightarrow> error + 'r" where
  "iloc_last df = (if df = [] then Inl IndexError else Inr (last df))"

text \<open>\<^verbatim>\<open>df.tail(n)\<close>: the last \<open>n\<close> rows, all rows when there are fewer.\<close>

definition tail :: "nat \<Rightarrow> 'r list \<Rightarrow> 'r list" where
  "tail n df = drop (length df - n) df"

text \<open>
  \<^verbatim>\<open>df["Tag"] == tag\<close>: a missing tag is NaN, which is equal to nothing, itself included.
\<close>

definition tag_eq :: "string option \<Rightarrow> string option \<Rightarrow> bool" where
  "tag_eq a b = (case a of None \<Rightarrow> False | Some s \<Rightarrow> b = Some s)"

text \<open>\<^verbatim>\<open>df["Tag"].unique()\<close>: the distinct tags in order of first appearance.\<close>

fun unique :: "'a list \<Rightarrow> 'a list" where
  "unique [] = []"
| "unique (x # xs) = x # unique (filter (\<lambda>y. y \<noteq> x) xs)"

text \<open>\<^verbatim>\<open>pd.concat(frames)\<close>: ValueError when there is no frame to concatenate.\<close>

definition pd_concat :: "'r list list \<Rightarrow> error + 'r list" where
  "pd_concat frames = (if frames = [] then Inl ValueError else Inr (concat frames))"

section \<open>Row sanitizer: \<^verbatim>\<open>load_data\<close>, lines 18 to 25\<close>

definition load_data_frame ::
  "'n conversion \<Rightarrow> 't conversion \<Rightarrow> string \<Rightarrow> ('n, 't) row list \<Rightarrow>
   error + ('n, 't) row list" where
  "load_data_frame to_numeric to_datetime sheet_name csv =
     (let df = dropna [\<lambda>r. isna (Timestamp r)] csv
      in case to_numeric (map X df) of
           Inl e \<Rightarrow> Inl e
         | Inr xs \<Rightarrow>
     (let df = assign_X xs df
      in case to_numeric (map Y df) of
           Inl e \<Rightarrow> Inl e
         | Inr ys \<Rightarrow>
     (let df = assign_Y ys df
      in case to_datetime (map Timestamp df) of
           Inl e \<Rightarrow> Inl e
         | Inr ts \<Rightarrow>
     (let df = assign_Timestamp ts df;
          df = dropna [\<lambda>r. isna (X r), \<lambda>r. isna (Y r), \<lambda>r. isna (Timestamp r)] df;
          df = map (\<lambda>r. r\<lparr>Floor := Some sheet_name\<rparr>) df
      in Inr df))))"

text \<open>
  The function \<^verbatim>\<open>load_data\<close> itself: it looks the sheet's URL up and reads the CSV file
  from the remote source before it sanitizes the rows. The remote source is the parameter
  \<open>read_csv\<close>: given the number of reads made so far in the run and a URL, it returns
  the rows of the file or the exception that \<^verbatim>\<open>pd.read_csv\<close> raises. The state that is
  passed along is the number of reads of the run.
\<close>

definition CSV_URLS :: "string \<rightharpoonup> string" where
  "CSV_URLS =
     [''2nd'' \<mapsto> ''https://docs.google.com/spreadsheets/d/e/2PACX-1vTAu3Nv_Z7LvgPJ_YtIM14b5xrro004iNc_xjs6_Fgxn2NE_KTktnkyADzeGSgD99RYO6RKOZsYOpsN/pub?gid=1505254047&single=true&output=csv'',
      ''3rd'' \<mapsto> ''https://docs.google.com/spreadsheets/d/e/2PACX-1vTAu3Nv_Z7LvgPJ_YtIM14b5xrro004iNc_xjs6_Fgxn2NE_KTktnkyADzeGSgD99RYO6RKOZsYOpsN/pub?gid=2010753039&single=true&output=csv'']"

definition load_data ::
  "'n conversion \<Rightarrow> 't conversion \<Rightarrow>
   (nat \<Rightarrow> string \<Rightarrow> error + ('n, 't) row list) \<Rightarrow> string \<Rightarrow> nat \<Rightarrow>
   (error + ('n, 't) row list) \<times> nat" where
  "load_data to_numeric to_datetime read_csv sheet_name reads =
     (case CSV_URLS sheet_name of
        None \<Rightarrow> (Inl KeyError, reads)
      | Some url \<Rightarrow>
          (case read_csv reads url of
             Inl e \<Rightarrow> (Inl e, Suc reads)
           | Inr csv \<Rightarrow> (load_data_frame to_numeric to_datetime sheet_name csv, Suc reads)))"

section \<open>Latest-position selector: line 38\<close>

definition latest :: "('n, 't) sorter \<Rightarrow> ('n, 't) row list \<Rightarrow> error + ('n, 't) row" where
  "latest sort_values df_all = iloc_last (sort_values df_all)"

section \<open>History filter: lines 101 to 113\<close>

text \<open>
  \<open>limit_choice\<close> is one of the numbers of \<^verbatim>\<open>limit_options\<close> or the string "All";
  \<open>tag_choice\<close> is the string "All" or a tag of the frame.
\<close>

datatype limit = Last nat | All_rows

definition df_filtered ::
  "('n, 't) sorter \<Rightarrow> ('n, 't) row list \<Rightarrow> string option \<Rightarrow> limit \<Rightarrow>
   error + ('n, 't) row list" where
  "df_filtered sort_values df tag_choice limit_choice =
     (if tag_choice \<noteq> Some ''All'' then
        (let sel = sort_values (filter (\<lambda>r. tag_eq (Tag r) tag_choice) df)
         in Inr (case limit_choice of Last n \<Rightarrow> tail n sel | All_rows \<Rightarrow> sel))
      else
        pd_concat
          (map (\<lambda>tag.
                  let tag_df = sort_values (filter (\<lambda>r. tag_eq (Tag r) tag) df)
                  in (case limit_choice of Last n \<Rightarrow> tail n tag_df | All_rows \<Rightarrow> tag_df))
               (unique (map Tag df))))"

section \<open>Fade ranker: lines 115 to 118\<close>

text \<open>
  \<^verbatim>\<open>groupby("Tag").cumcount()\<close> numbers the rows of every tag from 0 in frame order: a
  row's number is the count of the rows before it with its tag.
  \<^verbatim>\<open>groupby("Tag")["order"].rank(pct=True)\<close> gives a row the average rank of its value
  among the values of its tag (the count of the smaller values, plus the mean position
  among the equal ones), divided by the count of the rows of its tag. The quotient is a
  floating-point number in the program and a rational number here.
  pandas leaves rows with a missing tag out of the groups; no such row reaches the
  ranker (lemma \<open>df_filtered_tagged\<close>), and the model groups them like any other key.
\<close>

definition cumcount :: "'k list \<Rightarrow> nat list" where
  "cumcount keys =
     map (\<lambda>i. length (filter (\<lambda>k. k = keys ! i) (take i keys))) [0..<length keys]"

definition rank_pct :: "'k list \<Rightarrow> nat list \<Rightarrow> rat list" where
  "rank_pct keys vals =
     map (\<lambda>(k, v).
            let grp = map snd (filter (\<lambda>(k', w). k' = k) (zip keys vals))
            in (of_nat (length (filter (\<lambda>w. w < v) grp))
                + (of_nat (length (filter (\<lambda>w. w = v) grp)) + 1) / 2)
               / of_nat (length grp))
         (zip keys vals)"

record ('n, 't) faded = "('n, 't) row" +
  order :: nat
  alpha :: rat

definition fade_effect :: "('n, 't) sorter \<Rightarrow> ('n, 't) row list \<Rightarrow> ('n, 't) faded list" where
  "fade_effect sort_values df =
     (let df_sorted = sort_values df;
          orders = cumcount (map Tag df_sorted);
          alphas = rank_pct (map Tag df_sorted) orders
      in map (\<lambda>(r, k, a). row.extend r (faded.fields k a))
           (zip df_sorted (zip orders alphas)))"

section \<open>One run of the script: lines 31 to 169\<close>

text \<open>
  \<^verbatim>\<open>sorted(df["Tag"].unique().tolist())\<close> of line 95 compares the tags with each other;
  a missing tag is the float NaN, and Python raises TypeError when it compares a float
  with a string.
\<close>

definition tag_options :: "('n, 't) row list \<Rightarrow> error + string option list" where
  "tag_options df =
     (let tags = unique (map Tag df)
      in if None \<in> set tags \<and> 2 \<le> length tags then Inl TypeError
         else Inr (Some ''All'' # sort tags))"

text \<open>
  A run reads both floors, selects the latest position, reads the chosen floor again,
  filters and ranks. The choices of the three widgets are parameters. The result is the
  latest row and the ranked frame of the chart, or the exception shown by the handler of
  line 168, together with the number of reads of the remote source. Drawing is not
  modelled.
\<close>

definition run ::
  "'n conversion \<Rightarrow> 't conversion \<Rightarrow> ('n, 't) sorter \<Rightarrow>
   (nat \<Rightarrow> string \<Rightarrow> error + ('n, 't) row list) \<Rightarrow>
   string \<Rightarrow> string option \<Rightarrow> limit \<Rightarrow>
   (error + ('n, 't) row \<times> ('n, 't) faded list) \<times> nat" where
  "run to_numeric to_datetime sort_values read_csv floor_choice tag_choice limit_choice =
     (case load_data to_numeric to_datetime read_csv ''2nd'' 0 of
        (Inl e, n) \<Rightarrow> (Inl e, n)
      | (Inr df_2nd, n) \<Rightarrow>
     (case load_data to_numeric to_datetime read_csv ''3rd'' n of
        (Inl e, n) \<Rightarrow> (Inl e, n)
      | (Inr df_3rd, n) \<Rightarrow>
     (case pd_concat [df_2nd, df_3rd] of
        Inl e \<Rightarrow> (Inl e, n)
      | Inr df_all \<Rightarrow>
     (case latest sort_values df_all of
        Inl e \<Rightarrow> (Inl e, n)
      | Inr l \<Rightarrow>
     (case load_data to_numeric to_datetime read_csv floor_choice n of
        (Inl e, n) \<Rightarrow> (Inl e, n)
      | (Inr df, n) \<Rightarrow>
     (case tag_options df of
        Inl e \<Rightarrow> (Inl e, n)
      | Inr opts \<Rightarrow>
     (case df_filtered sort_values df tag_choice limit_choice of
        Inl e \<Rightarrow> (Inl e, n)
      | Inr f \<Rightarrow> (Inr (l, fade_effect sort_values f), n))))))))"

section \<open>What the program relies on in the library\<close>

text \<open>
  A conversion with \<^verbatim>\<open>errors="coerce"\<close> returns, when it returns, a column of the length
  of its argument whose cells are missing or typed, never text; and it returns a column
  of typed cells unchanged. A sort returns the rows of its argument, each as often as it
  occurs there, in ascending order of the Timestamp column. Nothing else about the
  library is assumed: not how a text is parsed, not which cells are coerced to missing,
  not the order among equal timestamps.
\<close>

fun typed :: "'a cell \<Rightarrow> bool" where
  "typed (Val v) = True"
| "typed NaN = False"
| "typed (Raw s) = False"

fun text_cell :: "'a cell \<Rightarrow> bool" where
  "text_cell (Raw s) = True"
| "text_cell NaN = False"
| "text_cell (Val v) = False"

definition coerces :: "'a conversion \<Rightarrow> bool" where
  "coerces conv =
     ((\<forall>col out. conv col = Inr out \<longrightarrow>
          length out = length col \<and> (\<forall>c\<in>set out. \<not> text_cell c))
      \<and> (\<forall>col. (\<forall>c\<in>set col. typed c) \<longrightarrow> conv col = Inr col))"

definition sorts :: "('n, 't::linorder) sorter \<Rightarrow> bool" where
  "sorts srt =
     (\<forall>df. mset (srt df) = mset df \<and> sorted (map (\<lambda>r. ts_key (Timestamp r)) (srt df)))"

section \<open>Notions of the specification and example data\<close>

text \<open>
  The rows that survive the sanitizer, given the frame left by line 18 and the three
  converted columns: those in which no converted cell is missing.
\<close>

definition kept ::
  "('n, 't) row list \<Rightarrow> 'n cell list \<Rightarrow> 'n cell list \<Rightarrow> 't cell list \<Rightarrow>
   (('n, 't) row \<times> 'n cell \<times> 'n cell \<times> 't cell) list" where
  "kept df xs ys ts =
     filter (\<lambda>(r, x, y, t). \<not> isna x \<and> \<not> isna y \<and> \<not> isna t) (zip df (zip xs (zip ys ts)))"

text \<open>The tag group of the specification: the rows of a frame that carry the tag \<open>g\<close>.\<close>

definition tag_group ::
  "string \<Rightarrow> ('n, 't, 'z) row_scheme list \<Rightarrow> ('n, 't, 'z) row_scheme list" where
  "tag_group g df = filter (\<lambda>r. Tag r = Some g) df"

text \<open>
  Library behaviour for the examples. Numbers are integers and a point in time is the
  number of minutes since the start of 2024-01-01. A text cell is converted by a parser
  of texts; missing and typed cells are kept.
\<close>

fun coerce_cell :: "(string \<Rightarrow> 'a option) \<Rightarrow> 'a cell \<Rightarrow> 'a cell" where
  "coerce_cell p NaN = NaN"
| "coerce_cell p (Val v) = Val v"
| "coerce_cell p (Raw s) = (case p s of None \<Rightarrow> NaN | Some v \<Rightarrow> Val v)"

definition parse_num_ex :: "string \<Rightarrow> int option" where
  "parse_num_ex s =
     (if s = ''5'' then Some 5 else if s = ''10'' then Some 10
      else if s = ''12'' then Some 12 else None)"

definition to_numeric_ex :: "int conversion" where
  "to_numeric_ex col = Inr (map (coerce_cell parse_num_ex) col)"

text \<open>
  The date conversion of the examples infers the format from the first text of the
  column, as pandas does from version 2 on, and converts every cell with that format: a
  text in another format becomes missing. It knows the formats year-month-day and
  month/day/year.
\<close>

definition parse_ymd_ex :: "string \<Rightarrow> nat option" where
  "parse_ymd_ex s =
     (if s = ''2024-01-01 10:00'' then Some 600
      else if s = ''2024-01-01 11:00'' then Some 660 else None)"

definition parse_mdy_ex :: "string \<Rightarrow> nat option" where
  "parse_mdy_ex s = (if s = ''01/01/2024 11:00'' then Some 660 else None)"

fun first_text :: "'a cell list \<Rightarrow> string option" where
  "first_text [] = None"
| "first_text (Raw s # col) = Some s"
| "first_text (NaN # col) = first_text col"
| "first_text (Val v # col) = first_text col"

definition to_datetime_ex :: "nat conversion" where
  "to_datetime_ex col =
     (case first_text col of
        None \<Rightarrow> Inr col
      | Some s \<Rightarrow>
          if parse_ymd_ex s \<noteq> None then Inr (map (coerce_cell parse_ymd_ex) col)
          else Inr (map (coerce_cell parse_mdy_ex) col))"

text \<open>
  Two sorts for the examples: insertion sort, which is stable, and insertion sort of the
  reversed frame, which puts rows with equal timestamps in the reverse of their order.
\<close>

definition stable_sort :: "('n, 't::linorder) sorter" where
  "stable_sort df = sort_key (\<lambda>r. ts_key (Timestamp r)) df"


text \<open>
  Raw rows as \<^verbatim>\<open>pd.read_csv\<close> returns them: a timestamp is a text; a number is typed
  when its whole column is numeric, and a text when the column holds a text that is not a
  number, as the X column of \<open>ex_row\<close>, \<open>ex_bad\<close> and \<open>ex_later\<close> does.
\<close>

definition ex_row :: "(int, nat) row" where
  "ex_row = \<lparr>Tag = Some ''T1'', X = Raw ''5'', Y = Val 10,
              Timestamp = Raw ''2024-01-01 10:00'', Floor = None\<rparr>"

definition ex_bad :: "(int, nat) row" where
  "ex_bad = \<lparr>Tag = Some ''T1'', X = Raw ''bad'', Y = Val 12,
              Timestamp = Raw ''2024-01-01 11:00'', Floor = None\<rparr>"

definition ex_untagged :: "(int, nat) row" where
  "ex_untagged = \<lparr>Tag = None, X = Val 5, Y = Val 10,
                   Timestamp = Raw ''2024-01-01 10:00'', Floor = None\<rparr>"


definition ex_plain :: "(int, nat) row" where
  "ex_plain = \<lparr>Tag = Some ''T1'', X = Val 5, Y = Val 10,
                Timestamp = Raw ''2024-01-01 10:00'', Floor = None\<rparr>"



text \<open>A sanitized frame of the second floor.\<close>

definition ex_t1_early :: "(int, nat) row" where
  "ex_t1_early = \<lparr>Tag = Some ''T1'', X = Val 5, Y = Val 10, Timestamp = Val 600,
                   Floor = Some ''2nd''\<rparr>"

definition ex_t1_late :: "(int, nat) row" where
  "ex_t1_late = \<lparr>Tag = Some ''T1'', X = Val 12, Y = Val 10, Timestamp = Val 660,
                  Floor = Some ''2nd''\<rparr>"

definition ex_t2 :: "(int, nat) row" where
  "ex_t2 = \<lparr>Tag = Some ''T2'', X = Val 5, Y = Val 12, Timestamp = Val 600,
             Floor = Some ''2nd''\<rparr>"

definition ex_floor :: "(int, nat) row list" where
  "ex_floor = [ex_t1_late, ex_t2, ex_t1_early]"

section \<open>The row sanitizer\<close>

lemmas ex_defs = ex_floor_def ex_t1_early_def ex_t1_late_def ex_t2_def

subsection \<open>The example library satisfies what the program relies on\<close>

lemma coerce_cell_not_text: "\<not> text_cell (coerce_cell p c)"
  by (cases c) (auto split: option.splits)

lemma coerce_cell_typed: "typed c \<Longrightarrow> coerce_cell p c = c"
  by (cases c) auto

lemma map_coerce_cell_typed: "\<forall>c\<in>set col. typed c \<Longrightarrow> map (coerce_cell p) col = col"
  by (induction col) (auto simp: coerce_cell_typed)

lemma first_text_typed: "\<forall>c\<in>set col. typed c \<Longrightarrow> first_text col = None"
  by (induction col rule: first_text.induct) auto

lemma first_text_None: "first_text col = None \<Longrightarrow> c \<in> set col \<Longrightarrow> \<not> text_cell c"
  by (induction col rule: first_text.induct) auto

lemma coerces_to_numeric_ex: "coerces to_numeric_ex"
  by (auto simp: coerces_def to_numeric_ex_def coerce_cell_not_text map_coerce_cell_typed)

lemma coerces_to_datetime_ex: "coerces to_datetime_ex"
  unfolding coerces_def to_datetime_ex_def
  by (auto simp: coerce_cell_not_text map_coerce_cell_typed first_text_typed
      dest: first_text_None split: option.splits if_splits)

lemma sorts_stable_sort: "sorts stable_sort"
  by (simp add: sorts_def stable_sort_def)


subsection \<open>Consequences\<close>

lemma coerces_length: "coerces conv \<Longrightarrow> conv col = Inr out \<Longrightarrow> length out = length col"
  by (simp add: coerces_def)

lemma coerces_not_text: "coerces conv \<Longrightarrow> conv col = Inr out \<Longrightarrow> c \<in> set out \<Longrightarrow> \<not> text_cell c"
  by (auto simp: coerces_def)

lemma coerces_typed: "coerces conv \<Longrightarrow> \<forall>c\<in>set col. typed c \<Longrightarrow> conv col = Inr col"
  by (simp add: coerces_def)

lemma sorts_mset: "sorts srt \<Longrightarrow> mset (srt df) = mset df"
  by (simp add: sorts_def)

lemma sorts_sorted: "sorts srt \<Longrightarrow> sorted (map (\<lambda>r. ts_key (Timestamp r)) (srt df))"
  by (simp add: sorts_def)

lemma sorts_set: "sorts srt \<Longrightarrow> set (srt df) = set df"
  by (metis sorts_mset set_mset_mset)

lemma sorts_length: "sorts srt \<Longrightarrow> length (srt df) = length df"
  by (metis sorts_mset size_mset)

lemma sorts_Nil: "sorts srt \<Longrightarrow> srt [] = []"
  using sorts_length [of srt "[]"] by simp

lemma sorts_filter_length:
  "sorts srt \<Longrightarrow> length (filter P (srt df)) = length (filter P df)"
  by (metis sorts_mset mset_filter size_mset)

lemma assign_all:
  "length xs = length df \<Longrightarrow> length ys = length df \<Longrightarrow> length ts = length df \<Longrightarrow>
   assign_Timestamp ts (assign_Y ys (assign_X xs df)) =
     map (\<lambda>(r, x, y, t). r\<lparr>X := x, Y := y, Timestamp := t\<rparr>) (zip df (zip xs (zip ys ts)))"
proof (induction df arbitrary: xs ys ts)
  case Nil
  then show ?case by (simp add: assign_X_def assign_Y_def assign_Timestamp_def)
next
  case (Cons r df)
  then obtain x xs' y ys' t ts' where "xs = x # xs'" "ys = y # ys'" "ts = t # ts'"
    by (metis length_Suc_conv)
  with Cons show ?case
    by (simp add: assign_X_def assign_Y_def assign_Timestamp_def)
qed

lemma map_Y_assign_X: "length xs = length df \<Longrightarrow> map Y (assign_X xs df) = map Y df"
  by (induction df xs rule: list_induct2') (auto simp: assign_X_def)

lemma map_Timestamp_assign:
  "length xs = length df \<Longrightarrow> length ys = length df \<Longrightarrow>
   map Timestamp (assign_Y ys (assign_X xs df)) = map Timestamp df"
proof (induction df arbitrary: xs ys)
  case Nil
  then show ?case by (simp add: assign_X_def assign_Y_def)
next
  case (Cons r df)
  then obtain x xs' y ys' where "xs = x # xs'" "ys = y # ys'"
    by (metis length_Suc_conv)
  with Cons show ?case by (simp add: assign_X_def assign_Y_def)
qed

lemma load_data_frame_converted:
  fixes csv :: "('n, 't) row list"
  assumes "coerces to_numeric" and "coerces to_datetime"
    and "to_numeric (map X (dropna [\<lambda>r. isna (Timestamp r)] csv)) = Inr xs"
    and "to_numeric (map Y (dropna [\<lambda>r. isna (Timestamp r)] csv)) = Inr ys"
    and "to_datetime (map Timestamp (dropna [\<lambda>r. isna (Timestamp r)] csv)) = Inr ts"
  shows "load_data_frame to_numeric to_datetime sheet_name csv =
     Inr (map (\<lambda>(r, x, y, t). r\<lparr>X := x, Y := y, Timestamp := t, Floor := Some sheet_name\<rparr>)
            (kept (dropna [\<lambda>r. isna (Timestamp r)] csv) xs ys ts))"
proof -
  let ?df = "dropna [\<lambda>r. isna (Timestamp r)] csv"
  have lx: "length xs = length ?df" using coerces_length [OF assms(1,3)] by simp
  have ly: "length ys = length ?df" using coerces_length [OF assms(1,4)] by simp
  have lt: "length ts = length ?df" using coerces_length [OF assms(2,5)] by simp
  have "load_data_frame to_numeric to_datetime sheet_name csv =
      Inr (map (\<lambda>r. r\<lparr>Floor := Some sheet_name\<rparr>)
        (dropna [\<lambda>r. isna (X r), \<lambda>r. isna (Y r), \<lambda>r. isna (Timestamp r)]
           (assign_Timestamp ts (assign_Y ys (assign_X xs ?df)))))"
    using assms(3,4,5)
    by (simp add: load_data_frame_def Let_def map_Y_assign_X [OF lx]
        map_Timestamp_assign [OF lx ly])
  also have "\<dots> = Inr (map (\<lambda>(r, x, y, t). r\<lparr>X := x, Y := y, Timestamp := t, Floor := Some sheet_name\<rparr>)
            (kept ?df xs ys ts))"
    by (simp add: assign_all [OF lx ly lt] dropna_def [of "[_, _, _]"] kept_def filter_map
        o_def split_def)
  finally show ?thesis .
qed

lemma load_data_frame_raises:
  fixes csv :: "('n, 't) row list"
  assumes "coerces to_numeric" and "coerces to_datetime"
  shows "load_data_frame to_numeric to_datetime sheet_name csv =
     (case to_numeric (map X (dropna [\<lambda>r. isna (Timestamp r)] csv)) of
        Inl e \<Rightarrow> Inl e
      | Inr xs \<Rightarrow>
     (case to_numeric (map Y (dropna [\<lambda>r. isna (Timestamp r)] csv)) of
        Inl e \<Rightarrow> Inl e
      | Inr ys \<Rightarrow>
     (case to_datetime (map Timestamp (dropna [\<lambda>r. isna (Timestamp r)] csv)) of
        Inl e \<Rightarrow> Inl e
      | Inr ts \<Rightarrow>
          Inr (map (\<lambda>(r, x, y, t). r\<lparr>X := x, Y := y, Timestamp := t, Floor := Some sheet_name\<rparr>)
                (kept (dropna [\<lambda>r. isna (Timestamp r)] csv) xs ys ts)))))"
proof (cases "to_numeric (map X (dropna [\<lambda>r. isna (Timestamp r)] csv))")
  case (Inl e)
  then show ?thesis by (simp add: load_data_frame_def Let_def)
next
  case xs: (Inr xs)
  let ?df = "dropna [\<lambda>r. isna (Timestamp r)] csv"
  have lx: "length xs = length ?df" using coerces_length [OF assms(1) xs] by simp
  show ?thesis
  proof (cases "to_numeric (map Y ?df)")
    case (Inl e)
    then show ?thesis using xs by (simp add: load_data_frame_def Let_def map_Y_assign_X [OF lx])
  next
    case ys: (Inr ys)
    have ly: "length ys = length ?df" using coerces_length [OF assms(1) ys] by simp
    show ?thesis
    proof (cases "to_datetime (map Timestamp ?df)")
      case (Inl e)
      then show ?thesis using xs ys
        by (simp add: load_data_frame_def Let_def map_Y_assign_X [OF lx]
            map_Timestamp_assign [OF lx ly])
    next
      case ts: (Inr ts)
      show ?thesis
        using load_data_frame_converted [OF assms xs ys ts, of sheet_name] xs ys ts by simp
    qed
  qed
qed

lemma typed_iff: "typed c = (\<not> isna c \<and> \<not> text_cell c)"
  by (cases c) auto

lemma kept_cells:
  assumes "(r, x, y, t) \<in> set (kept df xs ys ts)"
  shows "r \<in> set df \<and> x \<in> set xs \<and> y \<in> set ys \<and> t \<in> set ts
         \<and> \<not> isna x \<and> \<not> isna y \<and> \<not> isna t"
proof -
  from assms have z: "(r, x, y, t) \<in> set (zip df (zip xs (zip ys ts)))"
    and n: "\<not> isna x \<and> \<not> isna y \<and> \<not> isna t"
    by (auto simp: kept_def)
  from z have "r \<in> set df" and a: "(x, y, t) \<in> set (zip xs (zip ys ts))"
    by (auto dest: set_zip_leftD set_zip_rightD)
  from a have "x \<in> set xs" and b: "(y, t) \<in> set (zip ys ts)"
    by (auto dest: set_zip_leftD set_zip_rightD)
  from b have "y \<in> set ys" and "t \<in> set ts"
    by (auto dest: set_zip_leftD set_zip_rightD)
  with \<open>r \<in> set df\<close> \<open>x \<in> set xs\<close> n show ?thesis by simp
qed

lemma load_data_frame_Inr:
  fixes csv :: "('n, 't) row list"
  assumes "coerces to_numeric" and "coerces to_datetime"
    and "load_data_frame to_numeric to_datetime sheet_name csv = Inr df"
  shows "\<exists>xs ys ts.
       to_numeric (map X (dropna [\<lambda>r. isna (Timestamp r)] csv)) = Inr xs
     \<and> to_numeric (map Y (dropna [\<lambda>r. isna (Timestamp r)] csv)) = Inr ys
     \<and> to_datetime (map Timestamp (dropna [\<lambda>r. isna (Timestamp r)] csv)) = Inr ts
     \<and> df = map (\<lambda>(r, x, y, t). r\<lparr>X := x, Y := y, Timestamp := t, Floor := Some sheet_name\<rparr>)
              (kept (dropna [\<lambda>r. isna (Timestamp r)] csv) xs ys ts)"
  using assms(3) unfolding load_data_frame_raises [OF assms(1,2)]
  by (auto split: sum.splits)

lemma load_data_frame_typed:
  fixes csv :: "('n, 't) row list"
  assumes "coerces to_numeric" and "coerces to_datetime"
    and "load_data_frame to_numeric to_datetime sheet_name csv = Inr df"
    and "r \<in> set df"
  shows "typed (X r) \<and> typed (Y r) \<and> typed (Timestamp r) \<and> Floor r = Some sheet_name"
proof -
  let ?df = "dropna [\<lambda>r. isna (Timestamp r)] csv"
  obtain xs ys ts where c: "to_numeric (map X ?df) = Inr xs" "to_numeric (map Y ?df) = Inr ys"
      "to_datetime (map Timestamp ?df) = Inr ts"
    and df: "df = map (\<lambda>(r, x, y, t). r\<lparr>X := x, Y := y, Timestamp := t, Floor := Some sheet_name\<rparr>)
              (kept ?df xs ys ts)"
    using load_data_frame_Inr [OF assms(1,2,3)] by blast
  from assms(4) obtain r0 x y t where k: "(r0, x, y, t) \<in> set (kept ?df xs ys ts)"
    and r: "r = r0\<lparr>X := x, Y := y, Timestamp := t, Floor := Some sheet_name\<rparr>"
    unfolding df by auto
  note kc = kept_cells [OF k]
  have "\<not> text_cell x" using coerces_not_text [OF assms(1) c(1)] kc by blast
  moreover have "\<not> text_cell y" using coerces_not_text [OF assms(1) c(2)] kc by blast
  moreover have "\<not> text_cell t" using coerces_not_text [OF assms(2) c(3)] kc by blast
  ultimately show ?thesis using kc by (simp add: r typed_iff)
qed

lemma zip_maps:
  "zip df (zip (map f df) (zip (map g df) (map h df))) = map (\<lambda>r. (r, f r, g r, h r)) df"
  by (induction df) auto




text \<open>
  Claim C8. Sanitizing is idempotent: applying the steps of the sanitizer, for the same
  floor, to a frame that the sanitizer produced gives that frame again, row for row and
  in the same order. On the second pass every cell is typed, and a conversion returns a
  typed column as it is.
\<close>

theorem load_data_frame_idempotent:
  fixes csv :: "('n, 't) row list"
  assumes "coerces to_numeric" and "coerces to_datetime"
    and "load_data_frame to_numeric to_datetime sheet_name csv = Inr df"
  shows "load_data_frame to_numeric to_datetime sheet_name df = Inr df"
proof -
  note ty = load_data_frame_typed [OF assms]
  have ts: "\<forall>r\<in>set df. \<not> isna (Timestamp r)" using ty by (auto simp: typed_iff)
  have d: "dropna [\<lambda>r. isna (Timestamp r)] df = df"
    using ts by (simp add: dropna_def filter_id_conv)
  have x: "to_numeric (map X df) = Inr (map X df)"
    by (rule coerces_typed [OF assms(1)]) (use ty in auto)
  have y: "to_numeric (map Y df) = Inr (map Y df)"
    by (rule coerces_typed [OF assms(1)]) (use ty in auto)
  have t: "to_datetime (map Timestamp df) = Inr (map Timestamp df)"
    by (rule coerces_typed [OF assms(2)]) (use ty in auto)
  have k: "kept df (map X df) (map Y df) (map Timestamp df)
      = map (\<lambda>r. (r, X r, Y r, Timestamp r)) df"
    using ty by (auto simp: kept_def zip_maps filter_id_conv typed_iff)
  have "load_data_frame to_numeric to_datetime sheet_name df =
      Inr (map (\<lambda>(r, x, y, t). r\<lparr>X := x, Y := y, Timestamp := t, Floor := Some sheet_name\<rparr>)
            (kept df (map X df) (map Y df) (map Timestamp df)))"
    using load_data_frame_converted [OF assms(1,2), of df "map X df" "map Y df" "map Timestamp df"]
      x y t by (simp only: d)
  also have "\<dots> = Inr (map (\<lambda>r. r\<lparr>Floor := Some sheet_name\<rparr>) df)"
    by (simp add: k o_def)
  also have "map (\<lambda>r. r\<lparr>Floor := Some sheet_name\<rparr>) df = df"
    using ty by (simp add: map_idI)
  finally show ?thesis .
qed

theorem load_data_frame_idempotent_witness:
  "coerces to_numeric_ex \<and> coerces to_datetime_ex
   \<and> load_data_frame to_numeric_ex to_datetime_ex ''2nd'' [ex_row, ex_bad] = Inr [ex_t1_early]
   \<and> load_data_frame to_numeric_ex to_datetime_ex ''2nd'' [ex_t1_early] = Inr [ex_t1_early]"
proof -
  have a: "load_data_frame to_numeric_ex to_datetime_ex ''2nd'' [ex_row, ex_bad] = Inr [ex_t1_early]"
    by (simp add: load_data_frame_def dropna_def assign_X_def assign_Y_def assign_Timestamp_def
        to_numeric_ex_def to_datetime_ex_def parse_num_ex_def parse_ymd_ex_def
        ex_row_def ex_bad_def ex_t1_early_def)
  show ?thesis
    using load_data_frame_idempotent [OF coerces_to_numeric_ex coerces_to_datetime_ex a] a
      coerces_to_numeric_ex coerces_to_datetime_ex by simp
qed

text \<open>
  Claim C9, as stated: every row that the sanitizer emits has a non-empty string as its
  tag. The sanitizer never looks at the Tag column, and a raw row without a tag whose
  X, Y and Timestamp are valid is emitted with its tag still missing.
\<close>

theorem load_data_frame_keeps_untagged:
  "load_data_frame to_numeric_ex to_datetime_ex ''2nd'' [ex_untagged] =
     Inr [\<lparr>Tag = None, X = Val 5, Y = Val 10, Timestamp = Val 600, Floor = Some ''2nd''\<rparr>]"
  by (simp add: load_data_frame_def dropna_def assign_X_def assign_Y_def assign_Timestamp_def
      to_numeric_ex_def to_datetime_ex_def parse_ymd_ex_def ex_untagged_def)

text \<open>
  Claim C9, amended. The sanitizer passes the tag of every kept row through unchanged:
  when the conversions return, the tags of the sanitized frame are, in order, the tags of
  the kept raw rows. A row of the sanitized frame has a non-empty tag exactly when its
  raw row has one.
\<close>

theorem load_data_frame_tags:
  fixes csv :: "('n, 't) row list"
  assumes "coerces to_numeric" and "coerces to_datetime"
    and "to_numeric (map X (dropna [\<lambda>r. isna (Timestamp r)] csv)) = Inr xs"
    and "to_numeric (map Y (dropna [\<lambda>r. isna (Timestamp r)] csv)) = Inr ys"
    and "to_datetime (map Timestamp (dropna [\<lambda>r. isna (Timestamp r)] csv)) = Inr ts"
  shows "\<exists>df. load_data_frame to_numeric to_datetime sheet_name csv = Inr df
     \<and> map Tag df = map (\<lambda>(r, x, y, t). Tag r) (kept (dropna [\<lambda>r. isna (Timestamp r)] csv) xs ys ts)"
  unfolding load_data_frame_converted [OF assms]
  by (simp add: o_def split_def)

theorem load_data_frame_tags_witness:
  "\<exists>df. load_data_frame to_numeric_ex to_datetime_ex ''2nd'' [ex_row, ex_bad] = Inr df
     \<and> map Tag df = [Some ''T1'']"
proof -
  have x: "to_numeric_ex (map X (dropna [\<lambda>r. isna (Timestamp r)] [ex_row, ex_bad]))
      = Inr [Val 5, NaN]"
    by (simp add: dropna_def to_numeric_ex_def parse_num_ex_def ex_row_def ex_bad_def)
  have y: "to_numeric_ex (map Y (dropna [\<lambda>r. isna (Timestamp r)] [ex_row, ex_bad]))
      = Inr [Val 10, Val 12]"
    by (simp add: dropna_def to_numeric_ex_def parse_num_ex_def ex_row_def ex_bad_def)
  have t: "to_datetime_ex (map Timestamp (dropna [\<lambda>r. isna (Timestamp r)] [ex_row, ex_bad]))
      = Inr [Val 600, Val 660]"
    by (simp add: dropna_def to_datetime_ex_def parse_ymd_ex_def ex_row_def ex_bad_def)
  show ?thesis
    using load_data_frame_tags [OF coerces_to_numeric_ex coerces_to_datetime_ex x y t, of "''2nd''"]
    by (simp add: kept_def dropna_def ex_row_def ex_bad_def)
qed

section \<open>The latest-position selector\<close>

lemma sorted_map_le_last: "sorted (map f xs) \<Longrightarrow> x \<in> set xs \<Longrightarrow> f x \<le> f (last xs)"
  by (cases xs rule: rev_cases) (auto simp: sorted_append)


lemma latest_sorts:
  assumes "sorts srt" and "df \<noteq> []"
  shows "\<exists>r. latest srt df = Inr r \<and> r \<in> set df \<and> r = last (srt df)
           \<and> (\<forall>q\<in>set df. ts_key (Timestamp q) \<le> ts_key (Timestamp r))"
proof -
  have ne: "srt df \<noteq> []" using assms sorts_length [OF assms(1), of df] by auto
  have mem: "last (srt df) \<in> set df" using ne last_in_set sorts_set [OF assms(1)] by blast
  have "\<forall>q\<in>set df. ts_key (Timestamp q) \<le> ts_key (Timestamp (last (srt df)))"
    using sorted_map_le_last [OF sorts_sorted [OF assms(1), of df]] sorts_set [OF assms(1)]
    by blast
  with ne mem show ?thesis by (simp add: latest_def iloc_last_def)
qed

lemma latest_Nil: "sorts srt \<Longrightarrow> latest srt [] = Inl IndexError"
  by (simp add: latest_def iloc_last_def sorts_Nil)




text \<open>
  Claim C3. When the combined frame of both floors has no row, the selector fails: taking
  the last row of the empty sorted frame raises the IndexError that the handler of line
  168 reports, which is the failure the specification names EmptyDatasetError. The
  selector returns no row then, and it fails in no other case and with no other
  exception. A run whose two floors have no raw rows ends with this failure after its
  two reads.
\<close>

theorem latest_empty_fails:
  fixes df_all :: "('n, 't::linorder) row list"
  assumes "sorts sort_values" and "coerces to_numeric" and "coerces to_datetime"
  shows "latest sort_values ([] :: ('n, 't) row list) = Inl IndexError
   \<and> (\<exists>e. latest sort_values df_all = Inl e) = (df_all = [])
   \<and> run to_numeric to_datetime sort_values (\<lambda>reads url. Inr []) floor_choice tag_choice
        limit_choice = (Inl IndexError, 2)"
proof -
  have a: "(\<exists>e. latest sort_values df_all = Inl e) = (df_all = [])"
    by (cases "df_all = []")
      (use latest_sorts [OF assms(1), of df_all] in \<open>auto simp: latest_Nil [OF assms(1)]\<close>)
  have n: "to_numeric [] = Inr []" using coerces_typed [OF assms(2), of "[]"] by simp
  have d: "to_datetime [] = Inr []" using coerces_typed [OF assms(3), of "[]"] by simp
  have l: "load_data_frame to_numeric to_datetime s [] = Inr []" for s
    by (simp add: load_data_frame_def dropna_def assign_X_def assign_Y_def
        assign_Timestamp_def n d)
  have b: "run to_numeric to_datetime sort_values (\<lambda>reads url. Inr []) floor_choice tag_choice
        limit_choice = (Inl IndexError, 2)"
    by (simp add: run_def load_data_def CSV_URLS_def l pd_concat_def latest_Nil [OF assms(1)]
        numeral_2_eq_2)
  show ?thesis using a b by (simp add: latest_Nil [OF assms(1)])
qed

theorem latest_empty_fails_witness:
  "sorts (stable_sort :: (int, nat) sorter) \<and> coerces to_numeric_ex \<and> coerces to_datetime_ex
   \<and> latest stable_sort ([] :: (int, nat) row list) = Inl IndexError
   \<and> run to_numeric_ex to_datetime_ex stable_sort (\<lambda>reads url. Inr []) ''2nd'' (Some ''All'')
        All_rows = (Inl IndexError, 2)"
  using latest_empty_fails [OF sorts_stable_sort coerces_to_numeric_ex coerces_to_datetime_ex]
    sorts_stable_sort coerces_to_numeric_ex coerces_to_datetime_ex
  by simp

section \<open>Reads of the remote source in one run\<close>

lemma load_data_reads_ok:
  "load_data to_numeric to_datetime read_csv sheet_name n = (Inr df, m) \<Longrightarrow> m = Suc n"
  by (auto simp add: load_data_def split: option.splits sum.splits)

lemma load_data_reads_fail:
  "load_data to_numeric to_datetime read_csv sheet_name n = (Inl e, m) \<Longrightarrow> m \<le> Suc n"
  by (auto simp add: load_data_def split: option.splits sum.splits)

text \<open>
  Claim C10, as stated: a run reads the remote source at most twice. A run in which
  nothing fails calls \<^verbatim>\<open>load_data\<close> three times (lines 33, 34 and 93), and every call
  reads the remote source.
\<close>

theorem run_reads_three_times:
  "snd (run to_numeric_ex to_datetime_ex stable_sort (\<lambda>reads url. Inr [ex_plain]) ''2nd''
     (Some ''All'') All_rows) = 3"
  by (simp add: run_def load_data_def CSV_URLS_def load_data_frame_def dropna_def
      assign_X_def assign_Y_def assign_Timestamp_def to_numeric_ex_def to_datetime_ex_def
      ex_plain_def parse_num_ex_def parse_ymd_ex_def latest_def stable_sort_def
      iloc_last_def tag_options_def df_filtered_def pd_concat_def tag_eq_def)

text \<open>
  Claim C10, amended. A run reads the remote source at most three times: once per floor
  for the latest position and once more for the chosen floor; a run that ends without an
  exception has read it exactly three times.
\<close>

theorem run_reads_at_most_three:
  "snd (run to_numeric to_datetime sort_values read_csv floor_choice tag_choice limit_choice) \<le> 3
   \<and> (isl (fst (run to_numeric to_datetime sort_values read_csv floor_choice tag_choice
                  limit_choice))
      \<or> snd (run to_numeric to_datetime sort_values read_csv floor_choice tag_choice
                limit_choice) = 3)"
  unfolding run_def
  by (auto split: prod.splits sum.splits dest!: load_data_reads_ok load_data_reads_fail)

section \<open>The history filter\<close>

lemma ex_floor_sanitized:
  "load_data_frame to_numeric_ex to_datetime_ex ''2nd'' ex_floor = Inr ex_floor"
  by (simp add: load_data_frame_def dropna_def assign_X_def assign_Y_def assign_Timestamp_def
      to_numeric_ex_def to_datetime_ex_def ex_defs)

lemma set_unique [simp]: "set (unique xs) = set xs"
  by (induction xs rule: unique.induct) auto

lemma distinct_unique [simp]: "distinct (unique xs)"
  by (induction xs rule: unique.induct) auto

lemma unique_Nil_iff [simp]: "(unique xs = []) = (xs = [])"
  by (cases xs) auto

lemma tag_eq_iff: "tag_eq a b = (a = b \<and> a \<noteq> None)"
  by (auto simp: tag_eq_def split: option.splits)

lemma tag_eq_Some [simp]: "tag_eq a (Some g) = (a = Some g)"
  by (auto simp: tag_eq_iff)

lemma tag_eq_None [simp]: "tag_eq a None = False"
  by (auto simp: tag_eq_iff)

lemma set_tail_subset: "set (tail n xs) \<subseteq> set xs"
  by (simp add: tail_def set_drop_subset)

lemma concat_filter_distinct:
  assumes "distinct ks" and "\<And>k x. x \<in> set (F k) \<Longrightarrow> key x = k"
  shows "filter (\<lambda>x. key x = g) (concat (map F ks)) = (if g \<in> set ks then F g else [])"
  using assms(1)
proof (induction ks)
  case Nil
  then show ?case by simp
next
  case (Cons k ks)
  have a: "filter (\<lambda>x. key x = g) (F k) = (if k = g then F g else [])"
    using assms(2) [of _ k] by (auto simp: filter_empty_conv filter_id_conv)
  from Cons show ?case by (auto simp: a)
qed

lemma group_select:
  fixes df :: "('n, 't::linorder) row list"
  assumes "sorts srt"
    and "x \<in> set (case lc of Last n \<Rightarrow> tail n (srt (filter (\<lambda>r. tag_eq (Tag r) tag) df))
                      | All_rows \<Rightarrow> srt (filter (\<lambda>r. tag_eq (Tag r) tag) df))"
  shows "Tag x = tag \<and> tag \<noteq> None"
proof -
  have "x \<in> set (srt (filter (\<lambda>r. tag_eq (Tag r) tag) df))"
    using assms(2) set_tail_subset by (cases lc) fastforce+
  then show ?thesis by (auto simp: sorts_set [OF assms(1)] tag_eq_iff)
qed

lemma df_filtered_group:
  fixes df :: "('n, 't::linorder) row list"
  assumes "sorts srt" and "df_filtered srt df tag_choice lc = Inr out"
    and "tag_choice = Some ''All'' \<or> tag_choice = Some g"
  shows "filter (\<lambda>r. Tag r = Some g) out =
     (case lc of Last n \<Rightarrow> tail n (srt (filter (\<lambda>r. Tag r = Some g) df))
                | All_rows \<Rightarrow> srt (filter (\<lambda>r. Tag r = Some g) df))"
proof (cases "tag_choice = Some ''All''")
  case True
  let ?F = "\<lambda>tag. case lc of Last n \<Rightarrow> tail n (srt (filter (\<lambda>r. tag_eq (Tag r) tag) df))
                      | All_rows \<Rightarrow> srt (filter (\<lambda>r. tag_eq (Tag r) tag) df)"
  let ?ks = "unique (map Tag df)"
  have out: "out = concat (map ?F ?ks)"
    using assms(2) True by (simp add: df_filtered_def pd_concat_def Let_def split: if_splits)
  have "filter (\<lambda>x. Tag x = Some g) (concat (map ?F ?ks))
      = (if Some g \<in> set ?ks then ?F (Some g) else [])"
    by (rule concat_filter_distinct) (use group_select [OF assms(1)] in \<open>auto\<close>)
  moreover have "?F (Some g) = []" if "Some g \<notin> set ?ks"
  proof -
    have "filter (\<lambda>r. Tag r = Some g) df = []" using that by (force simp: filter_empty_conv)
    then show ?thesis by (cases lc) (simp_all add: sorts_Nil [OF assms(1)] tail_def)
  qed
  ultimately show ?thesis unfolding out by (auto split: limit.splits)
next
  case False
  with assms(3) have tc: "tag_choice = Some g" by simp
  let ?s = "srt (filter (\<lambda>r. Tag r = Some g) df)"
  have out: "out = (case lc of Last n \<Rightarrow> tail n ?s | All_rows \<Rightarrow> ?s)"
    using assms(2) False tc by (simp add: df_filtered_def Let_def)
  have "\<forall>x\<in>set out. Tag x = Some g"
    unfolding out using set_tail_subset [of _ ?s]
    by (cases lc) (auto simp: sorts_set [OF assms(1)])
  then show ?thesis unfolding out [symmetric] by (simp add: filter_id_conv)
qed

lemma df_filtered_returns:
  fixes df :: "('n, 't::linorder) row list"
  assumes "df \<noteq> [] \<or> tag_choice \<noteq> Some ''All''"
  shows "\<exists>out. df_filtered srt df tag_choice lc = Inr out"
  using assms by (auto simp: df_filtered_def pd_concat_def Let_def)

text \<open>
  An empty frame with the tag choice "All" gives no frame to concatenate, and
  \<^verbatim>\<open>pd.concat\<close> raises ValueError; with any other input the filter returns a frame.
\<close>

lemma df_filtered_empty_all:
  "df_filtered srt ([] :: ('n, 't::linorder) row list) (Some ''All'') lc = Inl ValueError"
  by (simp add: df_filtered_def pd_concat_def)

lemma df_filtered_tagged:
  fixes df :: "('n, 't::linorder) row list"
  assumes "sorts srt" and "df_filtered srt df tag_choice lc = Inr out" and "r \<in> set out"
  shows "Tag r \<noteq> None"
proof (cases "tag_choice = Some ''All''")
  case True
  then show ?thesis
    using assms(2,3) group_select [OF assms(1), where x = r and lc = lc and df = df]
    by (auto simp: df_filtered_def pd_concat_def Let_def split: if_splits)
next
  case False
  then show ?thesis
    using assms(2,3)
      group_select [OF assms(1), where x = r and lc = lc and df = df and tag = tag_choice]
    by (auto simp: df_filtered_def Let_def)
qed

lemma mset_eq_by_key:
  assumes "\<And>k. mset (filter (\<lambda>x. f x = k) xs) = mset (filter (\<lambda>x. f x = k) ys)"
  shows "mset xs = mset ys"
proof (rule multiset_eqI)
  fix a
  have "count (mset xs) a = count (mset (filter (\<lambda>x. f x = f a) xs)) a" by simp
  also have "\<dots> = count (mset (filter (\<lambda>x. f x = f a) ys)) a" by (simp only: assms)
  also have "\<dots> = count (mset ys) a" by simp
  finally show "count (mset xs) a = count (mset ys) a" .
qed

lemma tail_props:
  fixes s :: "'r list"
  assumes "sorted (map f s)"
  shows "length (tail n s) = min n (length s)"
    and "mset (tail n s) + mset (take (length s - n) s) = mset s"
    and "\<forall>a\<in>set (take (length s - n) s). \<forall>b\<in>set (tail n s). f a \<le> f b"
    and "length s \<le> n \<Longrightarrow> tail n s = s"
proof -
  show "length (tail n s) = min n (length s)" by (auto simp: tail_def)
  show "mset (tail n s) + mset (take (length s - n) s) = mset s"
    unfolding tail_def by (metis add.commute append_take_drop_id mset_append)
  have "sorted (map f (take (length s - n) s @ drop (length s - n) s))"
    using assms by simp
  then show "\<forall>a\<in>set (take (length s - n) s). \<forall>b\<in>set (tail n s). f a \<le> f b"
    unfolding tail_def map_append sorted_append by auto
  show "length s \<le> n \<Longrightarrow> tail n s = s" by (simp add: tail_def)
qed

lemma df_filtered_last:
  fixes df :: "('n, 't::linorder) row list"
  assumes "sorts sort_values"
    and "df \<noteq> [] \<or> tag_choice \<noteq> Some ''All''"
    and "tag_choice = Some ''All'' \<or> tag_choice = Some g"
  shows "\<exists>out dropped. df_filtered sort_values df tag_choice (Last n) = Inr out
     \<and> tag_group g out = tail n (sort_values (tag_group g df))
     \<and> length (tag_group g out) = min n (length (tag_group g df))
     \<and> mset (tag_group g out) + mset dropped = mset (tag_group g df)
     \<and> (\<forall>a\<in>set dropped. \<forall>b\<in>set (tag_group g out).
           ts_key (Timestamp a) \<le> ts_key (Timestamp b))
     \<and> (length (tag_group g df) \<le> n \<longrightarrow> mset (tag_group g out) = mset (tag_group g df))"
proof -
  let ?s = "sort_values (tag_group g df)"
  obtain out where out: "df_filtered sort_values df tag_choice (Last n) = Inr out"
    using df_filtered_returns [OF assms(2)] by blast
  have grp: "tag_group g out = tail n ?s"
    using df_filtered_group [OF assms(1) out assms(3)] by (simp add: tag_group_def)
  have srt: "sorted (map (\<lambda>r. ts_key (Timestamp r)) ?s)"
    by (rule sorts_sorted [OF assms(1)])
  have len: "length ?s = length (tag_group g df)" and ms: "mset ?s = mset (tag_group g df)"
    by (simp_all add: sorts_length [OF assms(1)] sorts_mset [OF assms(1)])
  note t = tail_props [OF srt, of n]
  have "length (tag_group g out) = min n (length (tag_group g df))"
    using t(1) by (simp add: grp len)
  moreover have "mset (tag_group g out) + mset (take (length ?s - n) ?s) = mset (tag_group g df)"
    using t(2) by (simp add: grp ms)
  moreover have "\<forall>a\<in>set (take (length ?s - n) ?s). \<forall>b\<in>set (tag_group g out).
           ts_key (Timestamp a) \<le> ts_key (Timestamp b)"
    using t(3) by (simp add: grp)
  moreover have "length (tag_group g df) \<le> n \<longrightarrow> mset (tag_group g out) = mset (tag_group g df)"
    using t(4) by (simp add: grp len ms)
  ultimately show ?thesis using out grp by blast
qed

text \<open>
  Claim C4. With a numeric limit \<open>n\<close>, for every tag \<open>g\<close> of the frame that the tag choice
  covers (the choice is "All" or \<open>g\<close> itself), the filter returns the last \<open>n\<close> rows of
  the rows of \<open>g\<close> sorted ascending by timestamp: at most \<open>n\<close> rows of \<open>g\<close>, namely the
  smaller of \<open>n\<close> and the count of its rows; no returned row of \<open>g\<close> is older than a row
  of \<open>g\<close> that was left out; and when \<open>g\<close> has at most \<open>n\<close> rows, all of them are
  returned, nothing is added and nothing fails.
\<close>

theorem df_filtered_limit:
  fixes df :: "('n, 't::linorder) row list"
  assumes "sorts sort_values"
    and "r \<in> set df" and "Tag r = Some g"
    and "tag_choice = Some ''All'' \<or> tag_choice = Some g"
  shows "\<exists>out dropped. df_filtered sort_values df tag_choice (Last n) = Inr out
     \<and> tag_group g out = tail n (sort_values (tag_group g df))
     \<and> length (tag_group g out) = min n (length (tag_group g df))
     \<and> mset (tag_group g out) + mset dropped = mset (tag_group g df)
     \<and> (\<forall>a\<in>set dropped. \<forall>b\<in>set (tag_group g out).
           ts_key (Timestamp a) \<le> ts_key (Timestamp b))
     \<and> (length (tag_group g df) \<le> n \<longrightarrow> mset (tag_group g out) = mset (tag_group g df))"
proof -
  from assms(2) have "df \<noteq> [] \<or> tag_choice \<noteq> Some ''All''" by auto
  then show ?thesis using assms(4) by (rule df_filtered_last [OF assms(1)])
qed

theorem df_filtered_limit_witness:
  "sorts (stable_sort :: (int, nat) sorter)
   \<and> ex_t1_late \<in> set ex_floor \<and> Tag ex_t1_late = Some ''T1''
   \<and> df_filtered stable_sort ex_floor (Some ''All'') (Last 1) = Inr [ex_t1_late, ex_t2]
   \<and> (\<exists>out dropped. df_filtered stable_sort ex_floor (Some ''All'') (Last 1) = Inr out
     \<and> tag_group ''T1'' out = tail 1 (stable_sort (tag_group ''T1'' ex_floor))
     \<and> length (tag_group ''T1'' out) = min 1 (length (tag_group ''T1'' ex_floor))
     \<and> mset (tag_group ''T1'' out) + mset dropped = mset (tag_group ''T1'' ex_floor)
     \<and> (\<forall>a\<in>set dropped. \<forall>b\<in>set (tag_group ''T1'' out).
           ts_key (Timestamp a) \<le> ts_key (Timestamp b))
     \<and> (length (tag_group ''T1'' ex_floor) \<le> 1 \<longrightarrow>
           mset (tag_group ''T1'' out) = mset (tag_group ''T1'' ex_floor)))"
proof -
  have a: "ex_t1_late \<in> set ex_floor" by (simp add: ex_floor_def)
  have b: "Tag ex_t1_late = Some ''T1''" by (simp add: ex_t1_late_def)
  have c: "Some ''All'' = Some ''All'' \<or> Some ''All'' = Some ''T1''" by simp
  have v: "df_filtered stable_sort ex_floor (Some ''All'') (Last 1) = Inr [ex_t1_late, ex_t2]"
    by (simp add: df_filtered_def pd_concat_def tag_eq_def stable_sort_def tail_def ex_defs)
  show ?thesis
    using df_filtered_limit [OF sorts_stable_sort a b c, of 1] a b v
      sorts_stable_sort [where ?'a = int and ?'b = nat] by blast
qed

text \<open>
  Claim C5, as stated: with the tag choice "All" and the limit "All" the filter returns
  exactly the rows of its input. The rows of a tag are selected by comparing the Tag
  column with the tag, and a missing tag is equal to no tag: a sanitized frame whose only
  row has no tag is filtered to the empty frame. A frame without rows is not returned
  either: it has no tag, and \<^verbatim>\<open>pd.concat\<close> raises ValueError.
\<close>

theorem df_filtered_drops_untagged:
  "load_data_frame to_numeric_ex to_datetime_ex ''2nd'' [ex_untagged] =
     Inr [\<lparr>Tag = None, X = Val 5, Y = Val 10, Timestamp = Val 600, Floor = Some ''2nd''\<rparr>]
   \<and> df_filtered stable_sort
       [\<lparr>Tag = None, X = Val (5::int), Y = Val 10, Timestamp = Val (600::nat),
         Floor = Some ''2nd''\<rparr>]
       (Some ''All'') All_rows = Inr []
   \<and> df_filtered stable_sort ([] :: (int, nat) row list) (Some ''All'') All_rows =
       Inl ValueError"
  by (simp add: load_data_frame_def dropna_def assign_X_def assign_Y_def assign_Timestamp_def
      to_numeric_ex_def to_datetime_ex_def parse_ymd_ex_def ex_untagged_def
      df_filtered_def pd_concat_def tag_eq_def stable_sort_def)

text \<open>
  Claim C5, amended. For every frame with at least one row, the filter with the tag
  choice "All" and the limit "All" returns exactly the rows of the input that carry a
  tag, none lost and none duplicated, and so a permutation of the input when no row lacks
  its tag. The rows of every tag are in ascending order of timestamp, and the result is
  the concatenation of the tag groups in the order in which the tags first appear.
\<close>

theorem df_filtered_all:
  fixes df :: "('n, 't::linorder) row list"
  assumes "sorts sort_values" and "df \<noteq> []"
  shows "\<exists>out. df_filtered sort_values df (Some ''All'') All_rows = Inr out
     \<and> mset out = mset (filter (\<lambda>r. Tag r \<noteq> None) df)
     \<and> ((\<forall>r\<in>set df. Tag r \<noteq> None) \<longrightarrow> mset out = mset df)
     \<and> (\<forall>g. tag_group g out = sort_values (tag_group g df))
     \<and> out = concat (map (\<lambda>tag. filter (\<lambda>r. Tag r = tag) out) (unique (map Tag df)))"
proof -
  obtain out where out: "df_filtered sort_values df (Some ''All'') All_rows = Inr out"
    using df_filtered_returns [of df "Some ''All''" sort_values All_rows] assms(2) by blast
  have grp: "tag_group g out = sort_values (tag_group g df)" for g
    using df_filtered_group [OF assms(1) out, of g] by (simp add: tag_group_def)
  have tagged: "Tag r \<noteq> None" if "r \<in> set out" for r
    using df_filtered_tagged [OF assms(1) out that] .
  have ms: "mset out = mset (filter (\<lambda>r. Tag r \<noteq> None) df)"
  proof (rule mset_eq_by_key [where f = Tag])
    fix k
    show "mset (filter (\<lambda>x. Tag x = k) out)
        = mset (filter (\<lambda>x. Tag x = k) (filter (\<lambda>r. Tag r \<noteq> None) df))"
    proof (cases k)
      case None
      then show ?thesis using tagged by (auto simp: filter_empty_conv)
    next
      case (Some g)
      have "mset (filter (\<lambda>x. Tag x = Some g) out) = mset (tag_group g df)"
        using grp [of g] by (simp add: tag_group_def sorts_mset [OF assms(1)])
      also have "tag_group g df = filter (\<lambda>x. Tag x = Some g) (filter (\<lambda>r. Tag r \<noteq> None) df)"
        by (auto simp: tag_group_def intro: filter_cong)
      finally show ?thesis using Some by simp
    qed
  qed
  have all: "(\<forall>r\<in>set df. Tag r \<noteq> None) \<longrightarrow> mset out = mset df"
  proof
    assume "\<forall>r\<in>set df. Tag r \<noteq> None"
    then have "filter (\<lambda>r. Tag r \<noteq> None) df = df" by (simp only: filter_id_conv)
    with ms show "mset out = mset df" by (simp only:)
  qed
  let ?F = "\<lambda>tag. sort_values (filter (\<lambda>r. tag_eq (Tag r) tag) df)"
  have o: "out = concat (map ?F (unique (map Tag df)))"
    using out assms(2) by (simp add: df_filtered_def pd_concat_def Let_def)
  have "filter (\<lambda>r. Tag r = tag) out = ?F tag" for tag
  proof (cases tag)
    case None
    then show ?thesis using tagged by (auto simp: filter_empty_conv sorts_Nil [OF assms(1)])
  next
    case (Some g)
    then show ?thesis using grp [of g] by (simp add: tag_group_def)
  qed
  then have cc: "out = concat (map (\<lambda>tag. filter (\<lambda>r. Tag r = tag) out) (unique (map Tag df)))"
    using o by simp
  show ?thesis using out ms all grp cc by blast
qed

theorem df_filtered_all_witness:
  "sorts (stable_sort :: (int, nat) sorter) \<and> ex_floor \<noteq> []
   \<and> (\<exists>out. df_filtered stable_sort ex_floor (Some ''All'') All_rows = Inr out
        \<and> mset out = mset (filter (\<lambda>r. Tag r \<noteq> None) ex_floor)
        \<and> ((\<forall>r\<in>set ex_floor. Tag r \<noteq> None) \<longrightarrow> mset out = mset ex_floor)
        \<and> (\<forall>g. tag_group g out = stable_sort (tag_group g ex_floor))
        \<and> out = concat (map (\<lambda>tag. filter (\<lambda>r. Tag r = tag) out) (unique (map Tag ex_floor))))"
proof -
  have ne: "ex_floor \<noteq> []" by (simp add: ex_floor_def)
  show ?thesis
    using df_filtered_all [OF sorts_stable_sort ne] ne
      sorts_stable_sort [where ?'a = int and ?'b = nat] by blast
qed

section \<open>The fade ranker\<close>

lemma length_cumcount: "length (cumcount ks) = length ks"
  by (simp add: cumcount_def)

lemma cumcount_snoc:
  "cumcount (ks @ [k]) = cumcount ks @ [length (filter (\<lambda>x. x = k) ks)]"
  by (simp add: cumcount_def nth_append)

lemma group_orders:
  "map snd (filter (\<lambda>(k', w). k' = k) (zip ks (cumcount ks)))
     = [0..<length (filter (\<lambda>x. x = k) ks)]"
proof (induction ks rule: rev_induct)
  case Nil
  then show ?case by (simp add: cumcount_def)
next
  case (snoc x ks)
  then show ?case by (simp add: cumcount_snoc length_cumcount)
qed

lemma filter_less_upt: "v < n \<Longrightarrow> filter (\<lambda>w. w < v) [0..<n] = [0..<v]"
  by (induction n) (auto simp: less_Suc_eq)

lemma filter_eq_upt: "v < n \<Longrightarrow> filter (\<lambda>w. w = v) [0..<n] = [v]"
  by (induction n) (auto simp: less_Suc_eq)

lemma rank_pct_cumcount:
  "rank_pct ks (cumcount ks) =
     map (\<lambda>(k, v). of_nat (Suc v) / of_nat (length (filter (\<lambda>x. x = k) ks)))
       (zip ks (cumcount ks))"
  unfolding rank_pct_def
proof (rule map_cong [OF refl], clarify)
  fix k v assume kv: "(k, v) \<in> set (zip ks (cumcount ks))"
  let ?n = "length (filter (\<lambda>x. x = k) ks)"
  have "v \<in> set (map snd (filter (\<lambda>(k', w). k' = k) (zip ks (cumcount ks))))"
    using kv by force
  then have v: "v < ?n" by (simp add: group_orders)
  show "(let grp = map snd (filter (\<lambda>(k', w). k' = k) (zip ks (cumcount ks)))
           in (of_nat (length (filter (\<lambda>w. w < v) grp))
                + (of_nat (length (filter (\<lambda>w. w = v) grp)) + 1) / 2) / of_nat (length grp))
        = (of_nat (Suc v) / of_nat ?n :: rat)"
    using v by (simp add: group_orders filter_less_upt filter_eq_upt)
qed

lemma zip_key_filter:
  "length s = length vs \<Longrightarrow>
   map snd (filter (\<lambda>(r, v). f r = g) (zip s vs))
     = map snd (filter (\<lambda>(k, v). k = g) (zip (map f s) vs))"
  by (induction s vs rule: list_induct2) auto

lemma zip3_filter:
  "length s = length os \<Longrightarrow> length os = length as \<Longrightarrow>
   map (\<lambda>(r, k, a). a) (filter (\<lambda>(r, k, a). P r) (zip s (zip os as)))
     = map snd (filter (\<lambda>(r, a). P r) (zip s as))"
  by (induction s os as rule: list_induct3) auto

lemma zip3_filter_mid:
  "length s = length os \<Longrightarrow> length os = length as \<Longrightarrow>
   map (\<lambda>(r, k, a). k) (filter (\<lambda>(r, k, a). P r) (zip s (zip os as)))
     = map snd (filter (\<lambda>(r, k). P r) (zip s os))"
  by (induction s os as rule: list_induct3) auto

lemma zip_map_group:
  "length ks = length vs \<Longrightarrow>
   map snd (filter (\<lambda>(k, a). k = g) (zip ks (map (\<lambda>(k, v). h k v) (zip ks vs))))
     = map (h g) (map snd (filter (\<lambda>(k, v). k = g) (zip ks vs)))"
  by (induction ks vs rule: list_induct2) auto

lemma length_rank_pct: "length ks = length vs \<Longrightarrow> length (rank_pct ks vs) = length ks"
  by (simp add: rank_pct_def)

lemma truncate_extend [simp]: "row.truncate (row.extend r m) = r"
  by (simp add: row.defs)

lemma fade_effect_truncate: "map row.truncate (fade_effect srt df) = srt df"
  by (simp add: fade_effect_def Let_def length_cumcount length_rank_pct o_def split_def
      map_fst_zip)

lemma Tag_extend [simp]: "Tag (row.extend r m) = Tag r"
  by (simp add: row.defs)

lemma Timestamp_extend [simp]: "Timestamp (row.extend r m) = Timestamp r"
  by (simp add: row.defs)

lemma alpha_extend [simp]: "alpha (row.extend r (faded.fields k a)) = a"
  by (simp add: row.defs faded.defs)

lemma order_extend [simp]: "order (row.extend r (faded.fields k a)) = k"
  by (simp add: row.defs faded.defs)

lemma fade_effect_group_alpha:
  assumes "sorts srt"
  shows "map alpha (filter (\<lambda>x. Tag x = g) (fade_effect srt df)) =
     map (\<lambda>i. of_nat (Suc i) / of_nat (length (filter (\<lambda>r. Tag r = g) df)))
       [0..<length (filter (\<lambda>r. Tag r = g) df)]"
proof -
  let ?s = "srt df"
  let ?ks = "map Tag ?s"
  let ?os = "cumcount ?ks"
  let ?as = "rank_pct ?ks ?os"
  let ?n = "length (filter (\<lambda>x. x = g) ?ks)"
  have n: "?n = length (filter (\<lambda>r. Tag r = g) df)"
    by (simp add: filter_map o_def sorts_filter_length [OF assms])
  have l1: "length ?s = length ?os" by (simp add: length_cumcount)
  have l2: "length ?os = length ?as" by (simp add: length_cumcount length_rank_pct)
  have "map alpha (filter (\<lambda>x. Tag x = g) (fade_effect srt df))
      = map (\<lambda>(r, k, a). a) (filter (\<lambda>(r, k, a). Tag r = g) (zip ?s (zip ?os ?as)))"
    by (simp add: fade_effect_def Let_def filter_map o_def split_def)
  also have "\<dots> = map snd (filter (\<lambda>(r, a). Tag r = g) (zip ?s ?as))"
    by (rule zip3_filter [OF l1 l2])
  also have "\<dots> = map snd (filter (\<lambda>(k, a). k = g) (zip ?ks ?as))"
    using l1 l2 by (intro zip_key_filter) simp
  also have "\<dots> = map (\<lambda>v. of_nat (Suc v) / of_nat ?n) (map snd (filter (\<lambda>(k, v). k = g) (zip ?ks ?os)))"
    unfolding rank_pct_cumcount
    by (rule zip_map_group) (simp add: length_cumcount)
  also have "\<dots> = map (\<lambda>v. of_nat (Suc v) / of_nat ?n) [0..<?n]"
    by (simp only: group_orders)
  finally show ?thesis unfolding n .
qed

lemma fade_effect_group_order:
  assumes "sorts srt"
  shows "map order (filter (\<lambda>x. Tag x = g) (fade_effect srt df)) =
     [0..<length (filter (\<lambda>r. Tag r = g) df)]"
proof -
  let ?s = "srt df"
  let ?ks = "map Tag ?s"
  let ?os = "cumcount ?ks"
  let ?as = "rank_pct ?ks ?os"
  let ?n = "length (filter (\<lambda>x. x = g) ?ks)"
  have n: "?n = length (filter (\<lambda>r. Tag r = g) df)"
    by (simp add: filter_map o_def sorts_filter_length [OF assms])
  have l1: "length ?s = length ?os" by (simp add: length_cumcount)
  have l2: "length ?os = length ?as" by (simp add: length_cumcount length_rank_pct)
  have "map order (filter (\<lambda>x. Tag x = g) (fade_effect srt df))
      = map (\<lambda>(r, k, a). k) (filter (\<lambda>(r, k, a). Tag r = g) (zip ?s (zip ?os ?as)))"
    by (simp add: fade_effect_def Let_def filter_map o_def split_def)
  also have "\<dots> = map snd (filter (\<lambda>(r, k). Tag r = g) (zip ?s ?os))"
    by (rule zip3_filter_mid [OF l1 l2])
  also have "\<dots> = map snd (filter (\<lambda>(k, a). k = g) (zip ?ks ?os))"
    using l1 by (intro zip_key_filter) simp
  also have "\<dots> = [0..<?n]"
    by (simp only: group_orders)
  finally show ?thesis unfolding n .
qed

lemma fade_effect_sorted:
  assumes "sorts srt"
  shows "sorted (map (\<lambda>x. ts_key (Timestamp x)) (filter P (fade_effect srt df)))"
proof -
  have "map (\<lambda>x. ts_key (Timestamp x)) (fade_effect srt df)
      = map (\<lambda>r. ts_key (Timestamp r)) (srt df)"
    by (simp add: fade_effect_def Let_def length_cumcount length_rank_pct o_def split_def
      map_fst_zip flip: map_map [of "\<lambda>r. ts_key (Timestamp r)" fst, unfolded o_def])
  then have "sorted (map (\<lambda>x. ts_key (Timestamp x)) (fade_effect srt df))"
    by (simp add: sorts_sorted [OF assms])
  then show ?thesis by (rule sorted_filter)
qed

text \<open>
  Claim C6. For every frame that the ranker receives, in particular every output of the
  history filter, and every tag \<open>g\<close> with \<open>N\<close> rows in it: the rows of \<open>g\<close> get the orders
  \<open>0, \<dots>, N - 1\<close> and the alphas \<open>1/N, 2/N, \<dots>, N/N\<close> in ascending order of timestamp. The
  alphas are pairwise distinct and lie in the interval \<open>(0, 1]\<close>; the row that gets the
  largest alpha, 1, is the last of the group and no row of the group has a later
  timestamp (of several rows of the group with the latest timestamp it is the one that
  the sort puts last); a group with one row gets alpha 1. Alpha is a rational number
  here.
\<close>

theorem fade_effect_alpha:
  fixes out :: "('n, 't::linorder) row list"
  assumes "sorts sort_values"
  shows "map order (tag_group g (fade_effect sort_values out)) = [0..<length (tag_group g out)]
   \<and> map alpha (tag_group g (fade_effect sort_values out)) =
     map (\<lambda>i. of_nat (Suc i) / of_nat (length (tag_group g out))) [0..<length (tag_group g out)]
   \<and> length (tag_group g (fade_effect sort_values out)) = length (tag_group g out)
   \<and> distinct (map alpha (tag_group g (fade_effect sort_values out)))
   \<and> (\<forall>x\<in>set (tag_group g (fade_effect sort_values out)). 0 < alpha x \<and> alpha x \<le> 1)
   \<and> (tag_group g (fade_effect sort_values out) \<noteq> [] \<longrightarrow>
        alpha (last (tag_group g (fade_effect sort_values out))) = 1
        \<and> (\<forall>x\<in>set (tag_group g (fade_effect sort_values out)).
              ts_key (Timestamp x) \<le> ts_key (Timestamp (last (tag_group g (fade_effect sort_values out))))))
   \<and> (length (tag_group g out) = 1 \<longrightarrow> map alpha (tag_group g (fade_effect sort_values out)) = [1])"
proof -
  let ?G = "tag_group g (fade_effect sort_values out)"
  let ?n = "length (tag_group g out)"
  let ?f = "\<lambda>i. (of_nat (Suc i) / of_nat ?n :: rat)"
  have al: "map alpha ?G = map ?f [0..<?n]"
    unfolding tag_group_def by (rule fade_effect_group_alpha [OF assms])
  have od: "map order ?G = [0..<?n]"
    unfolding tag_group_def by (rule fade_effect_group_order [OF assms])
  have len: "length ?G = ?n"
    using arg_cong [OF al, of length] by simp
  have inj: "inj_on ?f {0..<?n}"
  proof (rule inj_onI)
    fix i j assume i: "i \<in> {0..<?n}" and eq: "?f i = ?f j"
    from i have "(of_nat ?n :: rat) \<noteq> 0" by auto
    with eq have "(of_nat (Suc i) :: rat) = of_nat (Suc j)"
      by (simp only: divide_cancel_right) simp
    then have "Suc i = Suc j" by (simp only: of_nat_eq_iff)
    then show "i = j" by simp
  qed
  have dist: "distinct (map alpha ?G)"
    unfolding al using inj by (simp add: distinct_map)
  have rng: "0 < alpha x \<and> alpha x \<le> 1" if x: "x \<in> set ?G" for x
  proof -
    have "alpha x \<in> set (map ?f [0..<?n])" using x al [symmetric] by simp
    then obtain i where i: "i < ?n" "alpha x = ?f i" by auto
    from i(1) have "(0 :: rat) < of_nat ?n" and "(of_nat (Suc i) :: rat) \<le> of_nat ?n"
      by (auto simp only: of_nat_0_less_iff of_nat_le_iff)
    then have "0 < ?f i \<and> ?f i \<le> 1" by simp
    with i(2) show ?thesis by simp
  qed
  have lst: "alpha (last ?G) = 1" if ne: "?G \<noteq> []"
  proof -
    from ne len have pos: "0 < ?n" by auto
    have "alpha (last ?G) = last (map alpha ?G)" using ne by (simp add: last_map)
    also have "\<dots> = last (map ?f [0..<?n])" by (simp only: al)
    also have "\<dots> = 1"
    proof -
      from pos obtain m where m: "?n = Suc m" by (cases ?n) auto
      have "(of_nat (Suc m) :: rat) \<noteq> 0" by (simp only: of_nat_neq_0) simp
      then show ?thesis unfolding m by simp
    qed
    finally show ?thesis .
  qed
  have srt: "sorted (map (\<lambda>x. ts_key (Timestamp x)) ?G)"
    unfolding tag_group_def by (rule fade_effect_sorted [OF assms])
  have mx: "\<forall>x\<in>set ?G. ts_key (Timestamp x) \<le> ts_key (Timestamp (last ?G))"
    using sorted_map_le_last [OF srt] by blast
  have one: "map alpha ?G = [1]" if "?n = 1"
    unfolding al using that by simp
  show ?thesis using od al len dist rng lst mx one by blast
qed

theorem fade_effect_alpha_witness:
  "sorts (stable_sort :: (int, nat) sorter)
   \<and> tag_group ''T1'' (fade_effect stable_sort ex_floor) \<noteq> []
   \<and> map alpha (tag_group ''T1'' (fade_effect stable_sort ex_floor)) = [1 / 2, 1]
   \<and> distinct (map alpha (tag_group ''T1'' (fade_effect stable_sort ex_floor)))
   \<and> alpha (last (tag_group ''T1'' (fade_effect stable_sort ex_floor))) = 1
   \<and> map alpha (tag_group ''T2'' (fade_effect stable_sort ex_floor)) = [1]"
proof -
  have n1: "length (tag_group ''T1'' ex_floor) = 2"
    by (simp add: tag_group_def ex_defs)
  have n2: "length (tag_group ''T2'' ex_floor) = 1"
    by (simp add: tag_group_def ex_defs)
  have u: "[0..<2] = [0, 1]" by (simp add: upt_rec)
  from fade_effect_alpha [OF sorts_stable_sort, of "''T1''" ex_floor]
    fade_effect_alpha [OF sorts_stable_sort, of "''T2''" ex_floor]
    sorts_stable_sort [where ?'a = int and ?'b = nat]
  show ?thesis unfolding n1 n2 by (auto simp: u)
qed

text \<open>
  Claim C7, as stated: the ranker returns the rows in the order of its input. Line 116
  sorts the whole frame by timestamp before the ranks are computed: the output of the
  history filter for the choice "All" is grouped by tag, and the ranker puts a later row
  of the first tag behind an earlier row of the second, whatever the sort does with equal
  timestamps.
\<close>

theorem fade_effect_reorders:
  "df_filtered stable_sort [ex_t1_late, ex_t2] (Some ''All'') All_rows = Inr [ex_t1_late, ex_t2]
   \<and> map row.truncate (fade_effect stable_sort [ex_t1_late, ex_t2]) = [ex_t2, ex_t1_late]
   \<and> \<not> (\<exists>srt. sorts srt
          \<and> map row.truncate (fade_effect srt [ex_t1_late, ex_t2]) = [ex_t1_late, ex_t2])"
proof -
  have a: "df_filtered stable_sort [ex_t1_late, ex_t2] (Some ''All'') All_rows
      = Inr [ex_t1_late, ex_t2]"
    by (simp add: df_filtered_def pd_concat_def tag_eq_def stable_sort_def ex_defs)
  have b: "map row.truncate (fade_effect stable_sort [ex_t1_late, ex_t2]) = [ex_t2, ex_t1_late]"
    by (simp add: fade_effect_truncate stable_sort_def ex_defs)
  have c: "map row.truncate (fade_effect srt [ex_t1_late, ex_t2]) \<noteq> [ex_t1_late, ex_t2]"
    if s: "sorts srt" for srt
  proof
    assume "map row.truncate (fade_effect srt [ex_t1_late, ex_t2]) = [ex_t1_late, ex_t2]"
    then have "srt [ex_t1_late, ex_t2] = [ex_t1_late, ex_t2]"
      by (simp add: fade_effect_truncate)
    with sorts_sorted [OF s, of "[ex_t1_late, ex_t2]"] show False
      by (simp add: ex_defs)
  qed
  from c have d: "\<not> (\<exists>srt. sorts srt
          \<and> map row.truncate (fade_effect srt [ex_t1_late, ex_t2]) = [ex_t1_late, ex_t2])"
    by auto
  from a b d show ?thesis by (intro conjI)
qed

text \<open>
  Claim C7, amended. The ranker returns the rows of its input in ascending order of
  timestamp, as the library's sort orders them, each with all its fields unchanged and
  with \<open>order\<close> and \<open>alpha\<close> attached; no row is lost or duplicated.
\<close>

theorem fade_effect_sorts:
  fixes df :: "('n, 't::linorder) row list"
  assumes "sorts sort_values"
  shows "map row.truncate (fade_effect sort_values df) = sort_values df
   \<and> mset (map row.truncate (fade_effect sort_values df)) = mset df
   \<and> sorted (map (\<lambda>r. ts_key (Timestamp r)) (map row.truncate (fade_effect sort_values df)))"
  by (simp add: fade_effect_truncate sorts_mset [OF assms] sorts_sorted [OF assms])

theorem fade_effect_sorts_witness:
  "sorts (stable_sort :: (int, nat) sorter)
   \<and> map row.truncate (fade_effect stable_sort ex_floor) = stable_sort ex_floor
   \<and> mset (map row.truncate (fade_effect stable_sort ex_floor)) = mset ex_floor
   \<and> sorted (map (\<lambda>r. ts_key (Timestamp r))
        (map row.truncate (fade_effect stable_sort ex_floor)))"
  using fade_effect_sorts [OF sorts_stable_sort, of ex_floor]
    sorts_stable_sort [where ?'a = int and ?'b = nat]
  by blast

end
